theory Spec2Isabelle
  imports Main
begin

section \<open>The conversion orchestrator of App.tsx\<close>

text \<open>
  The component \<open>App\<close> keeps six pieces of state (the \<open>useState\<close> hooks) and four
  handlers: \<open>handleFilesAdded\<close>, \<open>handleRemoveFile\<close>, \<open>handleClearAll\<close> and the
  asynchronous \<open>handleConvert\<close>. The handlers are modelled as functions on a record of
  the six state variables. The two asynchronous collaborators, \<open>extractPdfText\<close> (from
  the hook \<open>usePdfExtractor\<close>) and \<open>convertTextToHtml\<close> (from the Gemini service), are
  parameters of the model.
\<close>

subsection \<open>Data\<close>

text \<open>
  A browser \<open>File\<close>: the component reads \<open>name\<close> and \<open>size\<close>; the content is what the
  extraction hook reads.
\<close>

record pdf_file =
  name :: string
  size_bytes :: nat
  content :: "nat list"

text \<open>\<open>type Result = { fileName: string; htmlContent: string }\<close>\<close>

record result =
  fileName :: string
  htmlContent :: string

text \<open>
  A thrown value, as the \<open>catch\<close> clause reads it (\<open>catch (e: any)\<close>): \<open>undefined\<close> or
  \<open>null\<close>, on which reading \<open>e.message\<close> throws a \<open>TypeError\<close>, or any other value, of
  which \<open>e.message\<close> is a string (\<open>Exn (Some m)\<close>) or is missing (\<open>Exn None\<close>).
\<close>

datatype exn = Thrown_nullish | Exn "string option"

text \<open>
  How the promise that \<open>handleConvert\<close> returns is settled: fulfilled, or rejected with
  the \<open>TypeError\<close> thrown inside the \<open>catch\<close> clause.
\<close>

datatype settlement = Fulfilled | Rejected_TypeError

text \<open>The state variables of the component, in the order of their \<open>useState\<close> calls.\<close>

record app_state =
  pdfFiles :: "pdf_file list"
  isConverting :: bool
  results :: "result list"
  error :: string
  combineOutput :: bool
  conversionStatus :: string

definition initial_state :: app_state where
  "initial_state =
     \<lparr>pdfFiles = [], isConverting = False, results = [], error = [],
      combineOutput = True, conversionStatus = []\<rparr>"

text \<open>
  The collaborators. \<open>extractPdfText file\<close> is a promise of \<open>string | null\<close>: it is
  fulfilled with a text (\<open>Inr (Some t)\<close>) or with \<open>null\<close> (\<open>Inr None\<close>), or it is
  rejected (\<open>Inl e\<close>). \<open>convertTextToHtml text\<close> is a promise of a string. \<open>settles_at\<close>
  is the moment at which the extraction promise of a file settles; \<open>Promise.all\<close>
  rejects with the reason of the promise that is rejected first.
\<close>

record adapters =
  extractPdfText :: "pdf_file \<Rightarrow> exn + string option"
  settles_at :: "pdf_file \<Rightarrow> nat"
  convertTextToHtml :: "string \<Rightarrow> exn + string"

text \<open>
  What a run does to the outside, in the order in which it happens, each event with the
  component state in force at that moment (all \<open>set...\<close> calls made before it applied).
  The calls of the two collaborators are the points at which the handler is suspended
  and the component is rendered from that state.
\<close>

datatype event =
    Extract_call pdf_file
  | Convert_call string
  | Console_error string
  | Console_error_exn exn

type_synonym trace = "(app_state \<times> event) list"

subsection \<open>JavaScript helpers\<close>

text \<open>The decimal digits of a number, as a template literal prints it.\<close>

function string_of_nat :: "nat \<Rightarrow> string" where
  "string_of_nat n =
     (if n < 10 then [char_of (48 + n)]
      else string_of_nat (n div 10) @ [char_of (48 + n mod 10)])"
  by pat_completeness auto
termination
  by (relation "measure id") auto

text \<open>\<open>Array.prototype.join\<close> on an array of strings.\<close>

fun join :: "string \<Rightarrow> string list \<Rightarrow> string" where
  "join sep [] = []"
| "join sep [x] = x"
| "join sep (x # y # ys) = x @ sep @ join sep (y # ys)"

text \<open>The truthiness of a value of type \<open>string | null\<close>: \<open>null\<close> and \<open>''\<close> are falsy.\<close>

fun truthy :: "string option \<Rightarrow> bool" where
  "truthy None = False"
| "truthy (Some t) = (t \<noteq> [])"

text \<open>
  \<open>Promise.all\<close> over promises given with their settling times: fulfilled with the
  values in the order of the array when none is rejected, otherwise rejected with the
  reason of the rejected promise that settles first (the leftmost of these when the
  times are equal).
\<close>

fun earliest :: "(nat \<times> exn) \<Rightarrow> (nat \<times> exn) list \<Rightarrow> exn" where
  "earliest b [] = snd b"
| "earliest b (q # qs) = earliest (if fst q < fst b then q else b) qs"

definition promise_all :: "(nat \<times> (exn + 'a)) list \<Rightarrow> exn + 'a list" where
  "promise_all ps =
     (case [(t, e). (t, Inl e) \<leftarrow> ps] of
        [] \<Rightarrow> Inr [v. (t, Inr v) \<leftarrow> ps]
      | r # rs \<Rightarrow> Inl (earliest r rs))"

subsection \<open>The file set handlers\<close>

text \<open>
  \<^verbatim>\<open>
  const handleFilesAdded = (newFiles: File[]) => {
    setPdfFiles(prevFiles => {
      const existingFileNames = new Set(prevFiles.map(f => f.name));
      const uniqueNewFiles = newFiles.filter(f => !existingFileNames.has(f.name));
      return [...prevFiles, ...uniqueNewFiles];
    });
    setResults([]);
    setError('');
  };
  \<close>
\<close>

definition handleFilesAdded :: "pdf_file list \<Rightarrow> app_state \<Rightarrow> app_state" where
  "handleFilesAdded newFiles s =
     (let prevFiles = pdfFiles s;
          existingFileNames = set (map name prevFiles);
          uniqueNewFiles = filter (\<lambda>f. name f \<notin> existingFileNames) newFiles
      in s\<lparr>pdfFiles := prevFiles @ uniqueNewFiles, results := [], error := []\<rparr>)"

text \<open>
  \<^verbatim>\<open>
  const handleRemoveFile = (fileName: string) => {
    setPdfFiles(prevFiles => prevFiles.filter(f => f.name !== fileName));
  };
  \<close>
\<close>

definition handleRemoveFile :: "string \<Rightarrow> app_state \<Rightarrow> app_state" where
  "handleRemoveFile fileName' s =
     s\<lparr>pdfFiles := filter (\<lambda>f. name f \<noteq> fileName') (pdfFiles s)\<rparr>"

text \<open>
  \<^verbatim>\<open>
  const handleClearAll = () => { setPdfFiles([]); setResults([]); setError(''); };
  \<close>
\<close>

definition handleClearAll :: "app_state \<Rightarrow> app_state" where
  "handleClearAll s = s\<lparr>pdfFiles := [], results := [], error := []\<rparr>"

subsection \<open>The conversion run\<close>

text \<open>The separator of the combined text: two newlines, \<open><hr />\<close>, two newlines.\<close>

definition separator :: string where
  "separator = [CHR 0x0A, CHR 0x0A] @ ''<hr />'' @ [CHR 0x0A, CHR 0x0A]"

text \<open>
  \<open>e.message || 'An unknown error occurred during conversion.'\<close>, for the message
  property read from a value other than \<open>undefined\<close> and \<open>null\<close>.
\<close>

definition error_text :: "string option \<Rightarrow> string" where
  "error_text msg =
     (case msg of
        None \<Rightarrow> ''An unknown error occurred during conversion.''
      | Some m \<Rightarrow> if m = [] then ''An unknown error occurred during conversion.'' else m)"

text \<open>
  The status of the first branch:
  \<^verbatim>\<open>`Extracting text from ${pdfFiles.length} files...`\<close>
\<close>

definition extracting_status :: "nat \<Rightarrow> string" where
  "extracting_status n = ''Extracting text from '' @ string_of_nat n @ '' files...''"

text \<open>
  The branch \<open>if (combineOutput)\<close> of the \<open>try\<close> block. It yields the exception that
  leaves the block, if any, the state and the trace.
\<close>

definition combined_branch ::
    "adapters \<Rightarrow> app_state \<Rightarrow> (exn + unit) \<times> app_state \<times> trace" where
  "combined_branch ad s =
     (let files = pdfFiles s;
          s1 = s\<lparr>conversionStatus := extracting_status (length files)\<rparr>;
          tr1 = map (\<lambda>file. (s1, Extract_call file)) files
      in case promise_all (map (\<lambda>file. (settles_at ad file, extractPdfText ad file)) files) of
           Inl e \<Rightarrow> (Inl e, s1, tr1)
         | Inr allTexts \<Rightarrow>
             (let validTexts = [text. Some text \<leftarrow> allTexts]
              in if length validTexts = 0
                 then (Inl (Exn (Some ''Could not extract text from any of the provided files.'')),
                       s1, tr1)
                 else
                   (let combinedText = join separator validTexts;
                        s2 = s1\<lparr>conversionStatus := ''AI is converting combined text...''\<rparr>;
                        tr2 = tr1 @ [(s2, Convert_call combinedText)]
                    in case convertTextToHtml ad combinedText of
                         Inl e \<Rightarrow> (Inl e, s2, tr2)
                       | Inr generatedHtml \<Rightarrow>
                           (Inr (),
                            s2\<lparr>results :=
                                 [\<lparr>fileName = ''Combined Output'',
                                   htmlContent = generatedHtml\<rparr>]\<rparr>,
                            tr2))))"

text \<open>
  The status of the other branch:
  \<^verbatim>\<open>`Converting ${file.name} (${i + 1}/${pdfFiles.length})...`\<close>
\<close>

definition converting_status :: "pdf_file \<Rightarrow> nat \<Rightarrow> nat \<Rightarrow> string" where
  "converting_status file i n =
     ''Converting '' @ name file @ '' ('' @ string_of_nat (i + 1) @ ''/''
       @ string_of_nat n @ '')...''"

text \<open>
  The \<open>for\<close> loop of the other branch, from index \<open>i\<close> on, with the local array
  \<open>individualResults\<close>.
\<close>

function individual_loop ::
    "adapters \<Rightarrow> pdf_file list \<Rightarrow> nat \<Rightarrow> result list \<Rightarrow> app_state \<Rightarrow> trace
       \<Rightarrow> (exn + result list) \<times> app_state \<times> trace" where
  "individual_loop ad files i individualResults s tr =
     (if i < length files then
        (let file = files ! i;
             s1 = s\<lparr>conversionStatus := converting_status file i (length files)\<rparr>;
             tr1 = tr @ [(s1, Extract_call file)]
         in case extractPdfText ad file of
              Inl e \<Rightarrow> (Inl e, s1, tr1)
            | Inr text \<Rightarrow>
                if truthy text then
                  (let tr2 = tr1 @ [(s1, Convert_call (the text))]
                   in case convertTextToHtml ad (the text) of
                        Inl e \<Rightarrow> (Inl e, s1, tr2)
                      | Inr generatedHtml \<Rightarrow>
                          individual_loop ad files (i + 1)
                            (individualResults
                               @ [\<lparr>fileName = name file, htmlContent = generatedHtml\<rparr>])
                            s1 tr2)
                else
                  individual_loop ad files (i + 1) individualResults s1
                    (tr1 @ [(s1, Console_error (''Failed to extract text from '' @ name file))]))
      else (Inr individualResults, s, tr))"
  by pat_completeness auto
termination
  by (relation "measure (\<lambda>(ad, files, i, acc, s, tr). length files - i)") auto

definition individual_branch ::
    "adapters \<Rightarrow> app_state \<Rightarrow> (exn + unit) \<times> app_state \<times> trace" where
  "individual_branch ad s =
     (case individual_loop ad (pdfFiles s) 0 [] s [] of
        (Inl e, s1, tr) \<Rightarrow> (Inl e, s1, tr)
      | (Inr individualResults, s1, tr) \<Rightarrow> (Inr (), s1\<lparr>results := individualResults\<rparr>, tr))"

text \<open>
  The \<open>catch\<close> and \<open>finally\<close> clauses, applied to the outcome of the \<open>try\<close> block:
  \<^verbatim>\<open>
  } catch (e: any) {
    console.error(e);
    setError(e.message || 'An unknown error occurred during conversion.');
  } finally {
    setIsConverting(false);
    setConversionStatus('');
  }
  \<close>
  When the value caught is \<open>undefined\<close> or \<open>null\<close>, reading \<open>e.message\<close> throws inside
  the \<open>catch\<close> clause, after \<open>console.error(e)\<close>: \<open>setError\<close> is not reached, the
  \<open>finally\<close> clause runs all the same, and the promise of \<open>handleConvert\<close> is rejected.
\<close>

definition catch_finally ::
    "(exn + unit) \<times> app_state \<times> trace \<Rightarrow> app_state \<times> trace \<times> settlement" where
  "catch_finally b =
     (case b of (r, s1, tr) \<Rightarrow>
        (let (s2, tr2, p) =
               (case r of
                  Inl e \<Rightarrow>
                    (case e of
                       Thrown_nullish \<Rightarrow>
                         (s1, tr @ [(s1, Console_error_exn e)], Rejected_TypeError)
                     | Exn msg \<Rightarrow>
                         (s1\<lparr>error := error_text msg\<rparr>, tr @ [(s1, Console_error_exn e)],
                          Fulfilled))
                | Inr u \<Rightarrow> (s1, tr, Fulfilled))
         in (s2\<lparr>isConverting := False, conversionStatus := []\<rparr>, tr2, p)))"

text \<open>
  \<open>handleConvert\<close>: the validation check, the state changes at the start, the \<open>try\<close>
  block with its two branches, then the \<open>catch\<close> and \<open>finally\<close> clauses. It yields the
  state after the run, the trace of the run and the settlement of its promise.
\<close>

definition handleConvert :: "adapters \<Rightarrow> app_state \<Rightarrow> app_state \<times> trace \<times> settlement" where
  "handleConvert ad s =
     (if length (pdfFiles s) = 0
      then (s\<lparr>error := ''Please select one or more PDF files first.''\<rparr>, [], Fulfilled)
      else
        (let s0 = s\<lparr>isConverting := True, error := [], results := []\<rparr>
         in catch_finally
              (if combineOutput s then combined_branch ad s0 else individual_branch ad s0)))"

subsection \<open>Vocabulary of the properties\<close>

text \<open>The state after a run, the trace of the run and the settlement of its promise.\<close>

definition state_after :: "adapters \<Rightarrow> app_state \<Rightarrow> app_state" where
  "state_after ad s = fst (handleConvert ad s)"

definition trace_of :: "adapters \<Rightarrow> app_state \<Rightarrow> trace" where
  "trace_of ad s = fst (snd (handleConvert ad s))"

definition settlement_of :: "adapters \<Rightarrow> app_state \<Rightarrow> settlement" where
  "settlement_of ad s = snd (snd (handleConvert ad s))"

text \<open>
  The error string after a run in which the value \<open>e\<close> left the \<open>try\<close> block: the one
  set at the start of the run when reading \<open>e.message\<close> throws, otherwise the message or
  the fallback.
\<close>

definition error_shown :: "exn \<Rightarrow> string" where
  "error_shown e = (case e of Thrown_nullish \<Rightarrow> [] | Exn msg \<Rightarrow> error_text msg)"

text \<open>The events of a trace, the files extracted and the texts sent to the service.\<close>

definition events :: "trace \<Rightarrow> event list" where
  "events tr = map snd tr"

fun extract_calls :: "event list \<Rightarrow> pdf_file list" where
  "extract_calls [] = []"
| "extract_calls (Extract_call f # es) = f # extract_calls es"
| "extract_calls (e # es) = extract_calls es"

fun convert_calls :: "event list \<Rightarrow> string list" where
  "convert_calls [] = []"
| "convert_calls (Convert_call t # es) = t # convert_calls es"
| "convert_calls (e # es) = convert_calls es"

text \<open>
  The states a run can be seen in: the ones in force at the events of the trace.
\<close>

definition observed :: "trace \<Rightarrow> app_state list" where
  "observed tr = map fst tr"

text \<open>The extraction promise of a file is rejected.\<close>

definition extraction_rejects :: "adapters \<Rightarrow> pdf_file \<Rightarrow> bool" where
  "extraction_rejects ad f = isl (extractPdfText ad f)"

text \<open>
  The texts that the combined branch keeps (\<open>text !== null\<close>), in the order of the
  files: every fulfilled extraction other than \<open>null\<close>, the empty string included.
\<close>

definition extracted_texts :: "adapters \<Rightarrow> pdf_file list \<Rightarrow> string list" where
  "extracted_texts ad files = [t. Inr (Some t) \<leftarrow> map (extractPdfText ad) files]"

text \<open>
  The files that the individual branch converts (\<open>if (text)\<close>): the extraction is
  fulfilled with a string other than the empty one. The text of such a file, and the
  entry that its conversion gives when the service answers.
\<close>

definition yields_text :: "adapters \<Rightarrow> pdf_file \<Rightarrow> bool" where
  "yields_text ad f = (case extractPdfText ad f of Inl e \<Rightarrow> False | Inr tx \<Rightarrow> truthy tx)"

definition text_of :: "adapters \<Rightarrow> pdf_file \<Rightarrow> string" where
  "text_of ad f = (case extractPdfText ad f of Inr (Some t) \<Rightarrow> t | _ \<Rightarrow> [])"

definition conversion_rejects :: "adapters \<Rightarrow> pdf_file \<Rightarrow> bool" where
  "conversion_rejects ad f = isl (convertTextToHtml ad (text_of ad f))"

definition entry_of :: "adapters \<Rightarrow> pdf_file \<Rightarrow> result" where
  "entry_of ad f =
     \<lparr>fileName = name f,
      htmlContent = (case convertTextToHtml ad (text_of ad f) of Inl e \<Rightarrow> [] | Inr h \<Rightarrow> h)\<rparr>"

text \<open>
  What the individual branch does for one file when nothing is thrown: the extraction,
  then the conversion of the text or the message on the console.
\<close>

definition file_events :: "adapters \<Rightarrow> pdf_file \<Rightarrow> event list" where
  "file_events ad f =
     (if yields_text ad f then [Extract_call f, Convert_call (text_of ad f)]
      else [Extract_call f, Console_error (''Failed to extract text from '' @ name f)])"

subsection \<open>Concrete files and collaborators\<close>

definition file_A :: pdf_file where
  "file_A = \<lparr>name = ''A.pdf'', size_bytes = 1200, content = [37, 80, 68, 70, 1]\<rparr>"

definition file_B :: pdf_file where
  "file_B = \<lparr>name = ''B.pdf'', size_bytes = 800, content = [37, 80, 68, 70, 2]\<rparr>"

definition file_C :: pdf_file where
  "file_C = \<lparr>name = ''C.pdf'', size_bytes = 500, content = [37, 80, 68, 70, 3]\<rparr>"

definition file_D :: pdf_file where
  "file_D = \<lparr>name = ''D.pdf'', size_bytes = 300, content = [0]\<rparr>"

definition file_E :: pdf_file where
  "file_E = \<lparr>name = ''E.pdf'', size_bytes = 100, content = []\<rparr>"

definition file_F :: pdf_file where
  "file_F = \<lparr>name = ''F.pdf'', size_bytes = 200, content = [37, 80, 68, 70]\<rparr>"

definition file_G :: pdf_file where
  "file_G = \<lparr>name = ''G.pdf'', size_bytes = 700, content = [37, 80, 68, 70, 7]\<rparr>"

definition file_H :: pdf_file where
  "file_H = \<lparr>name = ''H.pdf'', size_bytes = 50, content = [37, 80]\<rparr>"

text \<open>Another file called \<open>A.pdf\<close>, from another folder.\<close>

definition file_A' :: pdf_file where
  "file_A' = \<lparr>name = ''A.pdf'', size_bytes = 64, content = [37, 80, 68, 70, 9]\<rparr>"

text \<open>
  A collaborator pair: \<open>A.pdf\<close>, \<open>B.pdf\<close>, \<open>C.pdf\<close> and \<open>G.pdf\<close> have a text, the
  extraction of \<open>D.pdf\<close> gives \<open>null\<close>, the one of \<open>E.pdf\<close> is rejected with a value that
  has no message, the one of \<open>F.pdf\<close> gives the empty string, the one of \<open>H.pdf\<close> is
  rejected with \<open>undefined\<close>, the one of any other file is rejected with a message; the
  service refuses the text of \<open>C.pdf\<close> with a message, rejects the text of \<open>G.pdf\<close>
  with \<open>undefined\<close> and wraps any other text in a paragraph.
\<close>

definition demo_adapters :: adapters where
  "demo_adapters =
     \<lparr>extractPdfText = (\<lambda>f.
        if name f = ''A.pdf'' then Inr (Some ''TextA'')
        else if name f = ''B.pdf'' then Inr (Some ''TextB'')
        else if name f = ''C.pdf'' then Inr (Some ''TextC'')
        else if name f = ''D.pdf'' then Inr None
        else if name f = ''E.pdf'' then Inl (Exn None)
        else if name f = ''F.pdf'' then Inr (Some [])
        else if name f = ''G.pdf'' then Inr (Some ''TextG'')
        else if name f = ''H.pdf'' then Inl Thrown_nullish
        else Inl (Exn (Some ''Invalid PDF structure.''))),
      settles_at = size_bytes,
      convertTextToHtml = (\<lambda>t.
        if t = ''TextC'' then Inl (Exn (Some ''The model is overloaded.''))
        else if t = ''TextG'' then Inl Thrown_nullish
        else Inr (''<p>'' @ t @ ''</p>''))\<rparr>"

text \<open>The state with the given pending files and mode, nothing else set.\<close>

definition ready :: "pdf_file list \<Rightarrow> bool \<Rightarrow> app_state" where
  "ready files combine = initial_state\<lparr>pdfFiles := files, combineOutput := combine\<rparr>"

section \<open>Auxiliary facts\<close>

declare string_of_nat.simps [simp del]

subsection \<open>Promise.all\<close>

lemma earliest_mem: "earliest b qs \<in> snd ` set (b # qs)"
  by (induction qs arbitrary: b) auto

lemma rejections_set:
  "set [(t, e). (t, Inl e) \<leftarrow> ps] = {(t, e). (t, Inl e) \<in> set ps}"
  by (induction ps) (auto split: sum.splits)

lemma promise_all_rejected:
  assumes "\<exists>p\<in>set ps. isl (snd p)"
  shows "\<exists>t e. (t, Inl e) \<in> set ps \<and> promise_all ps = Inl e"
proof -
  from assms obtain t0 e0 where "(t0, Inl e0) \<in> set ps"
    by (metis isl_def prod.collapse)
  then have "(t0, e0) \<in> set [(t, e). (t, Inl e) \<leftarrow> ps]"
    by (simp add: rejections_set)
  then obtain r rs where rs: "[(t, e). (t, Inl e) \<leftarrow> ps] = r # rs"
    by (cases "[(t, e). (t, Inl e) \<leftarrow> ps]") auto
  have "earliest r rs \<in> snd ` set (r # rs)" by (rule earliest_mem)
  then obtain t where "(t, earliest r rs) \<in> set [(t, e). (t, Inl e) \<leftarrow> ps]"
    unfolding rs [symmetric] by force
  then have "(t, Inl (earliest r rs)) \<in> set ps" by (simp add: rejections_set)
  moreover have "promise_all ps = Inl (earliest r rs)"
    by (simp add: promise_all_def rs)
  ultimately show ?thesis by blast
qed

lemma promise_all_fulfilled:
  assumes "\<forall>f\<in>set files. \<not> isl (ex f)"
  shows "promise_all (map (\<lambda>f. (st f, ex f)) files) = Inr (map (\<lambda>f. projr (ex f)) files)"
proof -
  from assms have a: "[(t, e). (t, Inl e) \<leftarrow> map (\<lambda>f. (st f, ex f)) files] = []"
    by (induction files) (auto split: sum.splits)
  from assms
  have b: "[v. (t, Inr v) \<leftarrow> map (\<lambda>f. (st f, ex f)) files] = map (\<lambda>f. projr (ex f)) files"
    by (induction files) (auto split: sum.splits)
  show ?thesis unfolding promise_all_def a b by simp
qed

lemma valid_texts:
  "\<forall>f\<in>set files. \<not> isl (extractPdfText ad f) \<Longrightarrow>
   [tx. Some tx \<leftarrow> map (\<lambda>f. projr (extractPdfText ad f)) files] = extracted_texts ad files"
  unfolding extracted_texts_def
  by (induction files) (auto split: sum.splits option.splits)

subsection \<open>The loop of the individual branch\<close>

declare individual_loop.simps [simp del]

lemma loop_finished:
  "\<not> i < length files \<Longrightarrow> individual_loop ad files i acc s tr = (Inr acc, s, tr)"
  by (simp add: individual_loop.simps)

lemma loop_extraction_rejected:
  "i < length files \<Longrightarrow> extractPdfText ad (files ! i) = Inl e \<Longrightarrow>
   individual_loop ad files i acc s tr =
     (Inl e, s\<lparr>conversionStatus := converting_status (files ! i) i (length files)\<rparr>,
      tr @ [(s\<lparr>conversionStatus := converting_status (files ! i) i (length files)\<rparr>,
             Extract_call (files ! i))])"
  by (subst individual_loop.simps) (simp add: Let_def)

lemma loop_skipped:
  "i < length files \<Longrightarrow> extractPdfText ad (files ! i) = Inr tx \<Longrightarrow> \<not> truthy tx \<Longrightarrow>
   individual_loop ad files i acc s tr =
     individual_loop ad files (Suc i) acc
       (s\<lparr>conversionStatus := converting_status (files ! i) i (length files)\<rparr>)
       (tr @ [(s\<lparr>conversionStatus := converting_status (files ! i) i (length files)\<rparr>,
               Extract_call (files ! i)),
              (s\<lparr>conversionStatus := converting_status (files ! i) i (length files)\<rparr>,
               Console_error (''Failed to extract text from '' @ name (files ! i)))])"
  by (subst individual_loop.simps) (simp add: Let_def)

lemma loop_conversion_rejected:
  "i < length files \<Longrightarrow> extractPdfText ad (files ! i) = Inr (Some t) \<Longrightarrow> t \<noteq> [] \<Longrightarrow>
   convertTextToHtml ad t = Inl e \<Longrightarrow>
   individual_loop ad files i acc s tr =
     (Inl e, s\<lparr>conversionStatus := converting_status (files ! i) i (length files)\<rparr>,
      tr @ [(s\<lparr>conversionStatus := converting_status (files ! i) i (length files)\<rparr>,
             Extract_call (files ! i)),
            (s\<lparr>conversionStatus := converting_status (files ! i) i (length files)\<rparr>,
             Convert_call t)])"
  by (subst individual_loop.simps) (simp add: Let_def)

lemma loop_converted:
  "i < length files \<Longrightarrow> extractPdfText ad (files ! i) = Inr (Some t) \<Longrightarrow> t \<noteq> [] \<Longrightarrow>
   convertTextToHtml ad t = Inr html \<Longrightarrow>
   individual_loop ad files i acc s tr =
     individual_loop ad files (Suc i)
       (acc @ [\<lparr>fileName = name (files ! i), htmlContent = html\<rparr>])
       (s\<lparr>conversionStatus := converting_status (files ! i) i (length files)\<rparr>)
       (tr @ [(s\<lparr>conversionStatus := converting_status (files ! i) i (length files)\<rparr>,
               Extract_call (files ! i)),
              (s\<lparr>conversionStatus := converting_status (files ! i) i (length files)\<rparr>,
               Convert_call t)])"
  by (subst individual_loop.simps) (simp add: Let_def)

text \<open>The four ways in which one pass of the loop can go.\<close>

lemma file_cases:
  obtains (rejected) e where "extractPdfText ad f = Inl e"
  | (skipped) tx where "extractPdfText ad f = Inr tx" "\<not> truthy tx"
  | (refused) t e where "extractPdfText ad f = Inr (Some t)" "t \<noteq> []"
      "convertTextToHtml ad t = Inl e"
  | (converted) t html where "extractPdfText ad f = Inr (Some t)" "t \<noteq> []"
      "convertTextToHtml ad t = Inr html"
proof (cases "extractPdfText ad f")
  case (Inl e)
  then show ?thesis by (rule rejected)
next
  case (Inr tx)
  show ?thesis
  proof (cases "truthy tx")
    case False
    with Inr show ?thesis by (rule skipped)
  next
    case True
    then obtain t where t: "tx = Some t" "t \<noteq> []" by (cases tx) auto
    show ?thesis
    proof (cases "convertTextToHtml ad t")
      case (Inl e)
      with Inr t show ?thesis by (auto intro: refused)
    next
      case (Inr html)
      with \<open>extractPdfText ad f = Inr tx\<close> t show ?thesis by (auto intro: converted)
    qed
  qed
qed

text \<open>The loop only changes the status.\<close>

lemma loop_frame:
  "\<exists>c tr2. fst (snd (individual_loop ad files i acc s tr)) = s\<lparr>conversionStatus := c\<rparr>
     \<and> snd (snd (individual_loop ad files i acc s tr)) = tr @ tr2
     \<and> (\<forall>st\<in>set (map fst tr2). \<exists>c'. st = s\<lparr>conversionStatus := c'\<rparr>)"
proof (induction "length files - i" arbitrary: i acc s tr)
  case 0
  then have "\<not> i < length files" by simp
  then have "individual_loop ad files i acc s tr = (Inr acc, s, tr)" by (rule loop_finished)
  moreover have "s = s\<lparr>conversionStatus := conversionStatus s\<rparr>" by simp
  ultimately show ?case by (metis append_Nil2 fst_conv snd_conv list.set(1) list.map(1) empty_iff)
next
  case (Suc k)
  then have lt: "i < length files" and k: "k = length files - Suc i" by simp_all
  let ?s1 = "s\<lparr>conversionStatus := converting_status (files ! i) i (length files)\<rparr>"
  have upd: "\<And>c. ?s1\<lparr>conversionStatus := c\<rparr> = s\<lparr>conversionStatus := c\<rparr>" by simp
  show ?case
  proof (cases rule: file_cases [of ad "files ! i"])
    case (rejected e)
    show ?thesis
      unfolding loop_extraction_rejected [OF lt rejected]
      by (rule exI [of _ "converting_status (files ! i) i (length files)"],
          rule exI [of _ "[(?s1, Extract_call (files ! i))]"]) auto
  next
    case (skipped tx)
    from Suc.hyps(1) [OF k, of acc ?s1
        "tr @ [(?s1, Extract_call (files ! i)),
               (?s1, Console_error (''Failed to extract text from '' @ name (files ! i)))]"]
    obtain c tr2 where
      "fst (snd (individual_loop ad files i acc s tr)) = s\<lparr>conversionStatus := c\<rparr>"
      "snd (snd (individual_loop ad files i acc s tr)) =
         tr @ ([(?s1, Extract_call (files ! i)),
               (?s1, Console_error (''Failed to extract text from '' @ name (files ! i)))] @ tr2)"
      "\<forall>st\<in>set (map fst tr2). \<exists>c'. st = s\<lparr>conversionStatus := c'\<rparr>"
      unfolding loop_skipped [OF lt skipped] upd by auto
    then show ?thesis
      by (intro exI [of _ c] exI [of _ "[(?s1, Extract_call (files ! i)),
               (?s1, Console_error (''Failed to extract text from '' @ name (files ! i)))] @ tr2"])
         auto
  next
    case (refused t e)
    show ?thesis
      unfolding loop_conversion_rejected [OF lt refused]
      by (rule exI [of _ "converting_status (files ! i) i (length files)"],
          rule exI [of _ "[(?s1, Extract_call (files ! i)), (?s1, Convert_call t)]"]) auto
  next
    case (converted t html)
    from Suc.hyps(1) [OF k, of "acc @ [\<lparr>fileName = name (files ! i), htmlContent = html\<rparr>]" ?s1
        "tr @ [(?s1, Extract_call (files ! i)), (?s1, Convert_call t)]"]
    obtain c tr2 where
      "fst (snd (individual_loop ad files i acc s tr)) = s\<lparr>conversionStatus := c\<rparr>"
      "snd (snd (individual_loop ad files i acc s tr)) =
         tr @ ([(?s1, Extract_call (files ! i)), (?s1, Convert_call t)] @ tr2)"
      "\<forall>st\<in>set (map fst tr2). \<exists>c'. st = s\<lparr>conversionStatus := c'\<rparr>"
      unfolding loop_converted [OF lt converted] upd by auto
    then show ?thesis
      by (intro exI [of _ c]
            exI [of _ "[(?s1, Extract_call (files ! i)), (?s1, Convert_call t)] @ tr2"])
         auto
  qed
qed


lemma events_simps [simp]:
  "events [] = []"
  "events ((st, ev) # tr) = ev # events tr"
  "events (tr @ tr') = events tr @ events tr'"
  by (simp_all add: events_def)

text \<open>The loop when nothing is thrown from index \<open>i\<close> on.\<close>

lemma yields_text_skipped:
  "extractPdfText ad f = Inr tx \<Longrightarrow> \<not> truthy tx \<Longrightarrow> \<not> yields_text ad f"
  by (simp add: yields_text_def)

lemma yields_text_Some:
  "extractPdfText ad f = Inr (Some t) \<Longrightarrow> t \<noteq> [] \<Longrightarrow> yields_text ad f \<and> text_of ad f = t"
  by (simp add: yields_text_def text_of_def)

lemma loop_ok:
  assumes "\<forall>f\<in>set (drop i files). \<not> extraction_rejects ad f"
    and "\<forall>f\<in>set (drop i files). yields_text ad f \<longrightarrow> \<not> conversion_rejects ad f"
  shows "fst (individual_loop ad files i acc s tr) =
           Inr (acc @ map (entry_of ad) (filter (yields_text ad) (drop i files)))
         \<and> events (snd (snd (individual_loop ad files i acc s tr))) =
           events tr @ concat (map (file_events ad) (drop i files))"
  using assms
proof (induction "length files - i" arbitrary: i acc s tr)
  case 0
  then have "\<not> i < length files" by simp
  then show ?case by (simp add: loop_finished)
next
  case (Suc k)
  then have lt: "i < length files" and k: "k = length files - Suc i" by simp_all
  from lt have d: "drop i files = files ! i # drop (Suc i) files"
    by (simp add: Cons_nth_drop_Suc)
  from Suc.prems d have here: "\<not> extraction_rejects ad (files ! i)"
      "yields_text ad (files ! i) \<longrightarrow> \<not> conversion_rejects ad (files ! i)"
    and rest: "\<forall>f\<in>set (drop (Suc i) files). \<not> extraction_rejects ad f"
      "\<forall>f\<in>set (drop (Suc i) files). yields_text ad f \<longrightarrow> \<not> conversion_rejects ad f"
    by simp_all
  note IH = Suc.hyps(1) [OF k rest]
  show ?case
  proof (cases rule: file_cases [of ad "files ! i"])
    case (rejected e)
    with here(1) show ?thesis by (simp add: extraction_rejects_def)
  next
    case (skipped tx)
    from yields_text_skipped [OF skipped] show ?thesis
      unfolding loop_skipped [OF lt skipped]
      by (simp add: IH d file_events_def)
  next
    case (refused t e)
    from yields_text_Some [OF refused(1,2)] here(2) refused(3) show ?thesis
      by (simp add: conversion_rejects_def)
  next
    case (converted t html)
    from yields_text_Some [OF converted(1,2)] converted(3) show ?thesis
      unfolding loop_converted [OF lt converted]
      by (simp add: IH d file_events_def entry_of_def)
  qed
qed

text \<open>The loop when the conversion of file \<open>j\<close> is the first call to throw.\<close>

lemma loop_abort:
  assumes "i \<le> j" and "j < length files"
    and "\<forall>f\<in>set (take (j - i) (drop i files)).
           \<not> extraction_rejects ad f \<and> (yields_text ad f \<longrightarrow> \<not> conversion_rejects ad f)"
    and "yields_text ad (files ! j)"
    and "convertTextToHtml ad (text_of ad (files ! j)) = Inl e"
  shows "fst (individual_loop ad files i acc s tr) = Inl e
         \<and> events (snd (snd (individual_loop ad files i acc s tr))) =
           events tr @ concat (map (file_events ad) (take (j - i) (drop i files)))
             @ [Extract_call (files ! j), Convert_call (text_of ad (files ! j))]"
  using assms(1,3)
proof (induction "j - i" arbitrary: i acc s tr)
  case 0
  then have ij: "i = j" by simp
  from assms(4) obtain t where t: "extractPdfText ad (files ! j) = Inr (Some t)" "t \<noteq> []"
    by (cases rule: file_cases [of ad "files ! j"]) (auto simp: yields_text_def)
  from yields_text_Some [OF t] assms(5) have cv: "convertTextToHtml ad t = Inl e" by simp
  from yields_text_Some [OF t] show ?case
    unfolding ij loop_conversion_rejected [OF assms(2) t cv]
    by simp
next
  case (Suc k)
  then have lt: "i < j" and k: "k = j - Suc i" and le: "Suc i \<le> j" by simp_all
  from lt assms(2) have li: "i < length files" by simp
  from li have d: "drop i files = files ! i # drop (Suc i) files"
    by (simp add: Cons_nth_drop_Suc)
  from lt have tk: "take (j - i) (drop i files) = files ! i # take (j - Suc i) (drop (Suc i) files)"
    by (simp add: d Suc_diff_Suc [symmetric] del: drop_Suc)
  from Suc.prems(2) tk have here: "\<not> extraction_rejects ad (files ! i)"
      "yields_text ad (files ! i) \<longrightarrow> \<not> conversion_rejects ad (files ! i)"
    and rest: "\<forall>f\<in>set (take (j - Suc i) (drop (Suc i) files)).
           \<not> extraction_rejects ad f \<and> (yields_text ad f \<longrightarrow> \<not> conversion_rejects ad f)"
    by simp_all
  note IH = Suc.hyps(1) [OF k le rest]
  show ?case
  proof (cases rule: file_cases [of ad "files ! i"])
    case (rejected e')
    with here(1) show ?thesis by (simp add: extraction_rejects_def)
  next
    case (skipped tx)
    from yields_text_skipped [OF skipped] show ?thesis
      unfolding loop_skipped [OF li skipped] tk
      by (simp add: IH file_events_def)
  next
    case (refused t e')
    from yields_text_Some [OF refused(1,2)] here(2) refused(3) show ?thesis
      by (simp add: conversion_rejects_def)
  next
    case (converted t html)
    from yields_text_Some [OF converted(1,2)] show ?thesis
      unfolding loop_converted [OF li converted] tk
      by (simp add: IH file_events_def)
  qed
qed

lemma extract_calls_append [simp]:
  "extract_calls (es @ es') = extract_calls es @ extract_calls es'"
  by (induction es rule: extract_calls.induct) simp_all

lemma convert_calls_append [simp]:
  "convert_calls (es @ es') = convert_calls es @ convert_calls es'"
  by (induction es rule: convert_calls.induct) simp_all

lemma extract_calls_fan_out [simp]:
  "extract_calls (events (map (\<lambda>file. (st, Extract_call file)) files)) = files"
  by (induction files) simp_all

lemma convert_calls_fan_out [simp]:
  "convert_calls (events (map (\<lambda>file. (st, Extract_call file)) files)) = []"
  by (induction files) simp_all

lemma extract_calls_file_events [simp]:
  "extract_calls (concat (map (file_events ad) files)) = files"
  by (induction files) (simp_all add: file_events_def)

lemma error_text_eq:
  "error_text msg =
     (if msg = None \<or> msg = Some []
      then ''An unknown error occurred during conversion.'' else the msg)"
  by (simp add: error_text_def split: option.splits)

lemma error_text_nonempty: "error_text msg \<noteq> []"
  by (simp add: error_text_def split: option.splits)

subsection \<open>The clauses after the try block\<close>

lemma catch_finally_thrown:
  "error s1 = [] \<Longrightarrow>
   catch_finally (Inl e, s1, tr) =
     (s1\<lparr>error := error_shown e, isConverting := False, conversionStatus := []\<rparr>,
      tr @ [(s1, Console_error_exn e)],
      case e of Thrown_nullish \<Rightarrow> Rejected_TypeError | Exn msg \<Rightarrow> Fulfilled)"
  by (cases s1) (simp add: catch_finally_def error_shown_def split: exn.splits)

lemma catch_finally_normal:
  "catch_finally (Inr u, s1, tr) =
     (s1\<lparr>isConverting := False, conversionStatus := []\<rparr>, tr, Fulfilled)"
  by (simp add: catch_finally_def)

lemma handleConvert_started:
  "pdfFiles s \<noteq> [] \<Longrightarrow>
   handleConvert ad s =
     catch_finally
       (if combineOutput s
        then combined_branch ad (s\<lparr>isConverting := True, error := [], results := []\<rparr>)
        else individual_branch ad (s\<lparr>isConverting := True, error := [], results := []\<rparr>))"
  by (simp add: handleConvert_def Let_def)

subsection \<open>The combined branch\<close>

lemma combined_fan_out_rejected:
  assumes "\<exists>f\<in>set (pdfFiles s). extraction_rejects ad f"
  shows "\<exists>f\<in>set (pdfFiles s). \<exists>e. extractPdfText ad f = Inl e \<and>
           promise_all (map (\<lambda>file. (settles_at ad file, extractPdfText ad file))
                          (pdfFiles s)) = Inl e \<and>
           combined_branch ad s =
             (Inl e, s\<lparr>conversionStatus := extracting_status (length (pdfFiles s))\<rparr>,
              map (\<lambda>file. (s\<lparr>conversionStatus := extracting_status (length (pdfFiles s))\<rparr>,
                             Extract_call file)) (pdfFiles s))"
proof -
  let ?ps = "map (\<lambda>file. (settles_at ad file, extractPdfText ad file)) (pdfFiles s)"
  from assms have "\<exists>p\<in>set ?ps. isl (snd p)"
    by (simp add: extraction_rejects_def)
  from promise_all_rejected [OF this] obtain t e
    where mem: "(t, Inl e) \<in> set ?ps" and pa: "promise_all ?ps = Inl e"
    by blast
  from mem obtain f where f: "f \<in> set (pdfFiles s)" "extractPdfText ad f = Inl e" by auto
  have "combined_branch ad s =
          (Inl e, s\<lparr>conversionStatus := extracting_status (length (pdfFiles s))\<rparr>,
           map (\<lambda>file. (s\<lparr>conversionStatus := extracting_status (length (pdfFiles s))\<rparr>,
                          Extract_call file)) (pdfFiles s))"
    unfolding combined_branch_def Let_def pa by simp
  with f pa show ?thesis by blast
qed

lemma combined_fulfilled:
  assumes "\<forall>f\<in>set (pdfFiles s). \<not> extraction_rejects ad f"
  shows "combined_branch ad s =
     (if extracted_texts ad (pdfFiles s) = []
      then (Inl (Exn (Some ''Could not extract text from any of the provided files.'')),
            s\<lparr>conversionStatus := extracting_status (length (pdfFiles s))\<rparr>,
            map (\<lambda>file. (s\<lparr>conversionStatus := extracting_status (length (pdfFiles s))\<rparr>,
                           Extract_call file)) (pdfFiles s))
      else
        (case convertTextToHtml ad (join separator (extracted_texts ad (pdfFiles s))) of
           Inl e \<Rightarrow>
             (Inl e, s\<lparr>conversionStatus := ''AI is converting combined text...''\<rparr>,
              map (\<lambda>file. (s\<lparr>conversionStatus := extracting_status (length (pdfFiles s))\<rparr>,
                             Extract_call file)) (pdfFiles s)
              @ [(s\<lparr>conversionStatus := ''AI is converting combined text...''\<rparr>,
                  Convert_call (join separator (extracted_texts ad (pdfFiles s))))])
         | Inr html \<Rightarrow>
             (Inr (),
              s\<lparr>conversionStatus := ''AI is converting combined text...'',
                results := [\<lparr>fileName = ''Combined Output'', htmlContent = html\<rparr>]\<rparr>,
              map (\<lambda>file. (s\<lparr>conversionStatus := extracting_status (length (pdfFiles s))\<rparr>,
                             Extract_call file)) (pdfFiles s)
              @ [(s\<lparr>conversionStatus := ''AI is converting combined text...''\<rparr>,
                  Convert_call (join separator (extracted_texts ad (pdfFiles s))))])))"
proof -
  from assms have ex: "\<forall>f\<in>set (pdfFiles s). \<not> isl (extractPdfText ad f)"
    by (simp add: extraction_rejects_def)
  note pa = promise_all_fulfilled [of "pdfFiles s" "extractPdfText ad" "settles_at ad", OF ex]
  note vt = valid_texts [OF ex]
  show ?thesis
    unfolding combined_branch_def Let_def pa sum.case vt
    by (simp split: sum.splits)
qed

subsection \<open>What a branch of the try block can change\<close>

lemma combined_branch_frame:
  "\<exists>r s1 tr. combined_branch ad s = (r, s1, tr)
     \<and> (\<forall>st\<in>set (observed tr). \<exists>c. st = s\<lparr>conversionStatus := c\<rparr>)
     \<and> (case r of Inl e \<Rightarrow> \<exists>c. s1 = s\<lparr>conversionStatus := c\<rparr>
         | Inr u \<Rightarrow> \<exists>c rs. s1 = s\<lparr>conversionStatus := c, results := rs\<rparr>)"
proof (cases "\<exists>f\<in>set (pdfFiles s). extraction_rejects ad f")
  case True
  from combined_fan_out_rejected [OF True] show ?thesis
    by (auto simp: observed_def)
next
  case False
  then have "\<forall>f\<in>set (pdfFiles s). \<not> extraction_rejects ad f" by blast
  note eq = combined_fulfilled [OF this]
  show ?thesis
  proof (cases "extracted_texts ad (pdfFiles s) = []")
    case True
    with eq show ?thesis by (auto simp: observed_def)
  next
    case nonempty: False
    show ?thesis
    proof (cases "convertTextToHtml ad (join separator (extracted_texts ad (pdfFiles s)))")
      case (Inl e)
      with eq nonempty show ?thesis by (auto simp: observed_def)
    next
      case (Inr html)
      with eq nonempty show ?thesis by (auto simp: observed_def)
    qed
  qed
qed

lemma individual_branch_frame:
  "\<exists>r s1 tr. individual_branch ad s = (r, s1, tr)
     \<and> (\<forall>st\<in>set (observed tr). \<exists>c. st = s\<lparr>conversionStatus := c\<rparr>)
     \<and> (case r of Inl e \<Rightarrow> \<exists>c. s1 = s\<lparr>conversionStatus := c\<rparr>
         | Inr u \<Rightarrow> \<exists>c rs. s1 = s\<lparr>conversionStatus := c, results := rs\<rparr>)"
proof -
  let ?L = "individual_loop ad (pdfFiles s) 0 [] s []"
  from loop_frame [of ad "pdfFiles s" 0 "[]" s "[]"] obtain c tr2
    where c: "fst (snd ?L) = s\<lparr>conversionStatus := c\<rparr>"
      and tr2: "snd (snd ?L) = tr2"
      and obs: "\<forall>st\<in>set (observed tr2). \<exists>c'. st = s\<lparr>conversionStatus := c'\<rparr>"
    unfolding observed_def by auto
  show ?thesis
  proof (cases "fst ?L")
    case (Inl e)
    with c tr2 have "?L = (Inl e, s\<lparr>conversionStatus := c\<rparr>, tr2)"
      by (metis prod.collapse)
    then have "individual_branch ad s = (Inl e, s\<lparr>conversionStatus := c\<rparr>, tr2)"
      by (simp add: individual_branch_def)
    with obs show ?thesis by auto
  next
    case (Inr rs)
    with c tr2 have "?L = (Inr rs, s\<lparr>conversionStatus := c\<rparr>, tr2)"
      by (metis prod.collapse)
    then have "individual_branch ad s = (Inr (), s\<lparr>conversionStatus := c, results := rs\<rparr>, tr2)"
      by (simp add: individual_branch_def)
    with obs show ?thesis by auto
  qed
qed

subsection \<open>Every run that starts\<close>

lemma run_frame:
  assumes "pdfFiles s \<noteq> []"
  shows "(\<forall>st\<in>set (observed (trace_of ad s)).
            \<exists>c. st = s\<lparr>isConverting := True, error := [], results := [], conversionStatus := c\<rparr>)
     \<and> \<not> isConverting (state_after ad s)
     \<and> conversionStatus (state_after ad s) = []
     \<and> (results (state_after ad s) = [] \<or> error (state_after ad s) = [])"
proof -
  let ?s0 = "s\<lparr>isConverting := True, error := [], results := []\<rparr>"
  let ?b = "if combineOutput s then combined_branch ad ?s0 else individual_branch ad ?s0"
  from combined_branch_frame [of ad ?s0] individual_branch_frame [of ad ?s0]
  obtain r s1 tr where b: "?b = (r, s1, tr)"
    and obs: "\<forall>st\<in>set (observed tr). \<exists>c. st = ?s0\<lparr>conversionStatus := c\<rparr>"
    and fin: "case r of Inl e \<Rightarrow> \<exists>c. s1 = ?s0\<lparr>conversionStatus := c\<rparr>
              | Inr u \<Rightarrow> \<exists>c rs. s1 = ?s0\<lparr>conversionStatus := c, results := rs\<rparr>"
    by (cases "combineOutput s") auto
  have hc: "handleConvert ad s = catch_finally (r, s1, tr)"
    unfolding handleConvert_started [OF assms] b ..
  show ?thesis
  proof (cases r)
    case (Inl e)
    with fin obtain c where s1: "s1 = ?s0\<lparr>conversionStatus := c\<rparr>" by auto
    have "handleConvert ad s =
        (?s0\<lparr>conversionStatus := c, error := error_shown e, isConverting := False,
             conversionStatus := []\<rparr>,
         tr @ [(?s0\<lparr>conversionStatus := c\<rparr>, Console_error_exn e)],
         case e of Thrown_nullish \<Rightarrow> Rejected_TypeError | Exn msg \<Rightarrow> Fulfilled)"
      unfolding hc Inl s1 by (rule catch_finally_thrown) simp
    with obs show ?thesis
      by (auto simp: trace_of_def state_after_def observed_def)
  next
    case (Inr u)
    with fin obtain c rs where s1: "s1 = ?s0\<lparr>conversionStatus := c, results := rs\<rparr>" by auto
    have "handleConvert ad s =
        (?s0\<lparr>conversionStatus := c, results := rs, isConverting := False,
             conversionStatus := []\<rparr>, tr, Fulfilled)"
      unfolding hc Inr s1 by (rule catch_finally_normal)
    with obs show ?thesis
      by (auto simp: trace_of_def state_after_def observed_def)
  qed
qed

subsection \<open>The run in the individual mode\<close>

lemma individual_run_ok:
  assumes "\<not> combineOutput s" and "pdfFiles s \<noteq> []"
    and "\<forall>f\<in>set (pdfFiles s). \<not> extraction_rejects ad f"
    and "\<forall>f\<in>set (pdfFiles s). yields_text ad f \<longrightarrow> \<not> conversion_rejects ad f"
  shows "results (state_after ad s) = map (entry_of ad) (filter (yields_text ad) (pdfFiles s))
     \<and> error (state_after ad s) = []
     \<and> events (trace_of ad s) = concat (map (file_events ad) (pdfFiles s))"
proof -
  let ?s0 = "s\<lparr>isConverting := True, error := [], results := []\<rparr>"
  let ?L = "individual_loop ad (pdfFiles s) 0 [] ?s0 []"
  let ?rs = "map (entry_of ad) (filter (yields_text ad) (pdfFiles s))"
  from loop_ok [of 0 "pdfFiles s" ad "[]" ?s0 "[]"] assms(3,4)
  have r: "fst ?L = Inr ?rs"
    and ev: "events (snd (snd ?L)) = concat (map (file_events ad) (pdfFiles s))"
    by simp_all
  from loop_frame [of ad "pdfFiles s" 0 "[]" ?s0 "[]"] obtain c
    where c: "fst (snd ?L) = ?s0\<lparr>conversionStatus := c\<rparr>" by auto
  obtain tr where tr: "snd (snd ?L) = tr" by simp
  from r c tr have "?L = (Inr ?rs, ?s0\<lparr>conversionStatus := c\<rparr>, tr)"
    by (metis prod.collapse)
  then have "individual_branch ad ?s0 =
      (Inr (), ?s0\<lparr>conversionStatus := c, results := ?rs\<rparr>, tr)"
    by (simp add: individual_branch_def)
  with assms(1) have "handleConvert ad s =
      (?s0\<lparr>conversionStatus := c, results := ?rs, isConverting := False,
           conversionStatus := []\<rparr>, tr, Fulfilled)"
    by (simp add: handleConvert_started [OF assms(2)] catch_finally_normal)
  with ev tr show ?thesis by (simp add: state_after_def trace_of_def)
qed

lemma individual_run_abort:
  assumes "\<not> combineOutput s" and "i < length (pdfFiles s)"
    and "\<forall>f\<in>set (take i (pdfFiles s)).
           \<not> extraction_rejects ad f \<and> (yields_text ad f \<longrightarrow> \<not> conversion_rejects ad f)"
    and "yields_text ad (pdfFiles s ! i)"
    and "convertTextToHtml ad (text_of ad (pdfFiles s ! i)) = Inl e"
  shows "results (state_after ad s) = []
     \<and> error (state_after ad s) = error_shown e
     \<and> events (trace_of ad s) =
         concat (map (file_events ad) (take i (pdfFiles s)))
         @ [Extract_call (pdfFiles s ! i), Convert_call (text_of ad (pdfFiles s ! i)),
            Console_error_exn e]
     \<and> settlement_of ad s =
         (case e of Thrown_nullish \<Rightarrow> Rejected_TypeError | Exn msg \<Rightarrow> Fulfilled)"
proof -
  let ?s0 = "s\<lparr>isConverting := True, error := [], results := []\<rparr>"
  let ?L = "individual_loop ad (pdfFiles s) 0 [] ?s0 []"
  from assms(2) have ne: "pdfFiles s \<noteq> []" by auto
  from loop_abort [of 0 i "pdfFiles s" ad e "[]" ?s0 "[]"] assms(2-5)
  have r: "fst ?L = Inl e"
    and ev: "events (snd (snd ?L)) =
       concat (map (file_events ad) (take i (pdfFiles s)))
       @ [Extract_call (pdfFiles s ! i), Convert_call (text_of ad (pdfFiles s ! i))]"
    by simp_all
  from loop_frame [of ad "pdfFiles s" 0 "[]" ?s0 "[]"] obtain c
    where c: "fst (snd ?L) = ?s0\<lparr>conversionStatus := c\<rparr>" by auto
  obtain tr where tr: "snd (snd ?L) = tr" by simp
  from r c tr have "?L = (Inl e, ?s0\<lparr>conversionStatus := c\<rparr>, tr)"
    by (metis prod.collapse)
  then have "individual_branch ad ?s0 = (Inl e, ?s0\<lparr>conversionStatus := c\<rparr>, tr)"
    by (simp add: individual_branch_def)
  with assms(1) have "handleConvert ad s =
      (?s0\<lparr>conversionStatus := c, error := error_shown e, isConverting := False,
           conversionStatus := []\<rparr>,
       tr @ [(?s0\<lparr>conversionStatus := c\<rparr>, Console_error_exn e)],
       case e of Thrown_nullish \<Rightarrow> Rejected_TypeError | Exn msg \<Rightarrow> Fulfilled)"
    by (simp add: handleConvert_started [OF ne] catch_finally_thrown)
  with ev tr show ?thesis by (simp add: state_after_def trace_of_def settlement_of_def)
qed

subsection \<open>The run in the combined mode\<close>

lemma combined_run_fulfilled:
  assumes "combineOutput s" and "pdfFiles s \<noteq> []"
    and "\<forall>f\<in>set (pdfFiles s). \<not> extraction_rejects ad f"
  shows "handleConvert ad s =
     catch_finally
       (if extracted_texts ad (pdfFiles s) = []
        then (Inl (Exn (Some ''Could not extract text from any of the provided files.'')),
              s\<lparr>isConverting := True, error := [], results := [],
                conversionStatus := extracting_status (length (pdfFiles s))\<rparr>,
              map (\<lambda>file. (s\<lparr>isConverting := True, error := [], results := [],
                               conversionStatus := extracting_status (length (pdfFiles s))\<rparr>,
                             Extract_call file)) (pdfFiles s))
        else
          (case convertTextToHtml ad (join separator (extracted_texts ad (pdfFiles s))) of
             Inl e \<Rightarrow>
               (Inl e,
                s\<lparr>isConverting := True, error := [], results := [],
                  conversionStatus := ''AI is converting combined text...''\<rparr>,
                map (\<lambda>file. (s\<lparr>isConverting := True, error := [], results := [],
                               conversionStatus := extracting_status (length (pdfFiles s))\<rparr>,
                               Extract_call file)) (pdfFiles s)
                @ [(s\<lparr>isConverting := True, error := [], results := [],
                      conversionStatus := ''AI is converting combined text...''\<rparr>,
                    Convert_call (join separator (extracted_texts ad (pdfFiles s))))])
           | Inr html \<Rightarrow>
               (Inr (),
                s\<lparr>isConverting := True, error := [],
                  conversionStatus := ''AI is converting combined text...'',
                  results := [\<lparr>fileName = ''Combined Output'', htmlContent = html\<rparr>]\<rparr>,
                map (\<lambda>file. (s\<lparr>isConverting := True, error := [], results := [],
                               conversionStatus := extracting_status (length (pdfFiles s))\<rparr>,
                               Extract_call file)) (pdfFiles s)
                @ [(s\<lparr>isConverting := True, error := [], results := [],
                      conversionStatus := ''AI is converting combined text...''\<rparr>,
                    Convert_call (join separator (extracted_texts ad (pdfFiles s))))])))"
proof -
  let ?s0 = "s\<lparr>isConverting := True, error := [], results := []\<rparr>"
  from assms(3) have "\<forall>f\<in>set (pdfFiles ?s0). \<not> extraction_rejects ad f" by simp
  from combined_fulfilled [OF this] assms(1) show ?thesis
    by (simp add: handleConvert_started [OF assms(2)] split: sum.splits)
qed

lemma combined_run_rejected:
  assumes "combineOutput s" and "pdfFiles s \<noteq> []"
    and "\<exists>f\<in>set (pdfFiles s). extraction_rejects ad f"
  shows "\<exists>e. promise_all (map (\<lambda>file. (settles_at ad file, extractPdfText ad file))
                        (pdfFiles s)) = Inl e
     \<and> (\<exists>f\<in>set (pdfFiles s). extractPdfText ad f = Inl e)
     \<and> results (state_after ad s) = []
     \<and> error (state_after ad s) = error_shown e
     \<and> convert_calls (events (trace_of ad s)) = []
     \<and> settlement_of ad s =
         (case e of Thrown_nullish \<Rightarrow> Rejected_TypeError | Exn msg \<Rightarrow> Fulfilled)"
proof -
  let ?s0 = "s\<lparr>isConverting := True, error := [], results := []\<rparr>"
  from assms(3) have "\<exists>f\<in>set (pdfFiles ?s0). extraction_rejects ad f" by simp
  from combined_fan_out_rejected [OF this] obtain f e
    where f: "f \<in> set (pdfFiles s)" "extractPdfText ad f = Inl e"
      and pa: "promise_all (map (\<lambda>file. (settles_at ad file, extractPdfText ad file))
                              (pdfFiles s)) = Inl e"
      and b: "combined_branch ad ?s0 =
             (Inl e, ?s0\<lparr>conversionStatus := extracting_status (length (pdfFiles ?s0))\<rparr>,
              map (\<lambda>file. (?s0\<lparr>conversionStatus := extracting_status (length (pdfFiles ?s0))\<rparr>,
                             Extract_call file)) (pdfFiles ?s0))"
    by auto
  from assms(1) have "results (state_after ad s) = []"
    and "error (state_after ad s) = error_shown e"
    and "convert_calls (events (trace_of ad s)) = []"
    and "settlement_of ad s =
         (case e of Thrown_nullish \<Rightarrow> Rejected_TypeError | Exn msg \<Rightarrow> Fulfilled)"
    unfolding state_after_def trace_of_def settlement_of_def
      handleConvert_started [OF assms(2)] b
    by (simp_all add: catch_finally_thrown)
  with f pa show ?thesis by blast
qed

section \<open>The claims\<close>

text \<open>
  C1. In the combined mode, when no extraction promise is rejected, every pending file
  is extracted, in the order of the pending set. When at least one extraction gives a
  text (a string rather than \<open>null\<close>; the branch tests \<open>text !== null\<close>, so the empty
  string counts as a text), the service is called exactly once, with these texts in the
  order of their files, joined by two newlines, \<open><hr />\<close> and two newlines. When none
  gives a text, the service is not called, the error is
  \<open>Could not extract text from any of the provided files.\<close> and the result set is empty.
\<close>

theorem C1_combined_single_conversion:
  assumes "combineOutput s" and "pdfFiles s \<noteq> []"
    and "\<forall>f\<in>set (pdfFiles s). \<not> extraction_rejects ad f"
  shows "extract_calls (events (trace_of ad s)) = pdfFiles s
     \<and> (if extracted_texts ad (pdfFiles s) = []
        then convert_calls (events (trace_of ad s)) = []
           \<and> error (state_after ad s) =
               ''Could not extract text from any of the provided files.''
           \<and> results (state_after ad s) = []
        else convert_calls (events (trace_of ad s)) =
               [join ([CHR 0x0A, CHR 0x0A] @ ''<hr />'' @ [CHR 0x0A, CHR 0x0A])
                  (extracted_texts ad (pdfFiles s))])"
proof -
  note hc = combined_run_fulfilled [OF assms]
  have sep: "[CHR 0x0A, CHR 0x0A] @ ''<hr />'' @ [CHR 0x0A, CHR 0x0A] = separator"
    by (simp add: separator_def)
  show ?thesis
  proof (cases "extracted_texts ad (pdfFiles s) = []")
    case True
    then show ?thesis
      unfolding trace_of_def state_after_def hc
      by (simp add: catch_finally_thrown error_shown_def error_text_def)
  next
    case False
    then show ?thesis
      unfolding trace_of_def state_after_def hc sep
      by (cases "convertTextToHtml ad (join separator (extracted_texts ad (pdfFiles s)))")
         (simp_all add: catch_finally_thrown catch_finally_normal)
  qed
qed

theorem C1_witness:
  "convert_calls (events (trace_of demo_adapters (ready [file_A, file_D, file_B] True))) =
     [''TextA'' @ [CHR 0x0A, CHR 0x0A] @ ''<hr />'' @ [CHR 0x0A, CHR 0x0A] @ ''TextB'']
   \<and> convert_calls (events (trace_of demo_adapters (ready [file_A, file_B] True))) =
     [''TextA'' @ [CHR 0x0A, CHR 0x0A] @ ''<hr />'' @ [CHR 0x0A, CHR 0x0A] @ ''TextB'']
   \<and> convert_calls (events (trace_of demo_adapters (ready [file_A, file_F] True))) =
     [''TextA'' @ [CHR 0x0A, CHR 0x0A] @ ''<hr />'' @ [CHR 0x0A, CHR 0x0A]]
   \<and> convert_calls (events (trace_of demo_adapters (ready [file_D] True))) = []
   \<and> error (state_after demo_adapters (ready [file_D] True)) =
     ''Could not extract text from any of the provided files.''"
proof -
  have a: "combineOutput (ready fs True)" for fs by (simp add: ready_def)
  have b: "pdfFiles (ready fs True) = fs" for fs by (simp add: ready_def)
  have x: "\<not> extraction_rejects demo_adapters file_A" "\<not> extraction_rejects demo_adapters file_B"
    "\<not> extraction_rejects demo_adapters file_D" "\<not> extraction_rejects demo_adapters file_F"
    by (simp_all add: extraction_rejects_def demo_adapters_def file_A_def file_B_def file_D_def
          file_F_def)
  have t1: "extracted_texts demo_adapters [file_A, file_D, file_B] = [''TextA'', ''TextB'']"
    and t2: "extracted_texts demo_adapters [file_A, file_B] = [''TextA'', ''TextB'']"
    and t3: "extracted_texts demo_adapters [file_D] = []"
    and t4: "extracted_texts demo_adapters [file_A, file_F] = [''TextA'', []]"
    by (simp_all add: extracted_texts_def demo_adapters_def file_A_def file_B_def file_D_def
          file_F_def)
  from C1_combined_single_conversion [of "ready [file_A, file_D, file_B] True" demo_adapters]
    C1_combined_single_conversion [of "ready [file_A, file_B] True" demo_adapters]
    C1_combined_single_conversion [of "ready [file_A, file_F] True" demo_adapters]
    C1_combined_single_conversion [of "ready [file_D] True" demo_adapters]
  show ?thesis by (simp add: a b x t1 t2 t3 t4)
qed

text \<open>
  C2. In the individual mode, when no extraction promise is rejected and every call of
  the service that is made succeeds, the files are handled one after the other in the
  order of the pending set: the extraction of a file, then the conversion of its text
  or, when the extraction gave no text (\<open>null\<close> or the empty string; the branch tests
  \<open>if (text)\<close>), the message on the console, and only then the next file. The result
  set after the run has exactly one entry, the name of the file and the converted text,
  for each file whose extraction gave a text, in the order of the files, and none for
  the others; the error string is empty, also when no file gave a text.
\<close>

theorem C2_individual_results:
  assumes "\<not> combineOutput s" and "pdfFiles s \<noteq> []"
    and "\<forall>f\<in>set (pdfFiles s). \<not> extraction_rejects ad f"
    and "\<forall>f\<in>set (pdfFiles s). yields_text ad f \<longrightarrow> \<not> conversion_rejects ad f"
  shows "results (state_after ad s) = map (entry_of ad) (filter (yields_text ad) (pdfFiles s))
     \<and> error (state_after ad s) = []
     \<and> events (trace_of ad s) = concat (map (file_events ad) (pdfFiles s))"
  using assms by (rule individual_run_ok)

theorem C2_witness:
  "results (state_after demo_adapters (ready [file_A, file_D] False)) =
     [\<lparr>fileName = ''A.pdf'', htmlContent = ''<p>TextA</p>''\<rparr>]
   \<and> error (state_after demo_adapters (ready [file_A, file_D] False)) = []
   \<and> events (trace_of demo_adapters (ready [file_A, file_D] False)) =
     [Extract_call file_A, Convert_call ''TextA'', Extract_call file_D,
      Console_error ''Failed to extract text from D.pdf'']
   \<and> results (state_after demo_adapters (ready [file_D, file_F] False)) = []
   \<and> error (state_after demo_adapters (ready [file_D, file_F] False)) = []"
proof -
  have a: "\<not> combineOutput (ready fs False)" for fs by (simp add: ready_def)
  have b: "pdfFiles (ready fs False) = fs" for fs by (simp add: ready_def)
  have x: "\<not> extraction_rejects demo_adapters file_A" "\<not> extraction_rejects demo_adapters file_D"
    "\<not> extraction_rejects demo_adapters file_F"
    by (simp_all add: extraction_rejects_def demo_adapters_def file_A_def file_D_def file_F_def)
  have y: "yields_text demo_adapters file_A" "\<not> yields_text demo_adapters file_D"
    "\<not> yields_text demo_adapters file_F"
    by (simp_all add: yields_text_def demo_adapters_def file_A_def file_D_def file_F_def)
  have c: "\<not> conversion_rejects demo_adapters file_A"
    by (simp add: conversion_rejects_def text_of_def demo_adapters_def file_A_def)
  have e: "entry_of demo_adapters file_A = \<lparr>fileName = ''A.pdf'', htmlContent = ''<p>TextA</p>''\<rparr>"
    by (simp add: entry_of_def text_of_def demo_adapters_def file_A_def)
  have t: "text_of demo_adapters file_A = ''TextA''"
    by (simp add: text_of_def demo_adapters_def file_A_def)
  have n: "name file_D = ''D.pdf''" by (simp add: file_D_def)
  from C2_individual_results [of "ready [file_A, file_D] False" demo_adapters]
    C2_individual_results [of "ready [file_D, file_F] False" demo_adapters]
  show ?thesis by (simp add: a b x y c e t n file_events_def)
qed


text \<open>
  C3 fails when the value thrown is \<open>undefined\<close> or \<open>null\<close>. With \<open>G.pdf\<close> pending in the
  combined mode, the service is called with the text of the file and rejects it with
  \<open>undefined\<close>: the \<open>catch\<close> clause throws on \<open>e.message\<close>, so the error string stays
  empty instead of becoming \<open>An unknown error occurred during conversion.\<close>, and the
  promise of \<open>handleConvert\<close> is rejected; the result set is empty. The same happens
  when the extraction of \<open>H.pdf\<close> is rejected with \<open>undefined\<close>.
\<close>

theorem C3_thrown_undefined_no_error:
  "convertTextToHtml demo_adapters ''TextG'' = Inl Thrown_nullish
   \<and> convert_calls (events (trace_of demo_adapters (ready [file_G] True))) = [''TextG'']
   \<and> results (state_after demo_adapters (ready [file_G] True)) = []
   \<and> error (state_after demo_adapters (ready [file_G] True)) = []
   \<and> settlement_of demo_adapters (ready [file_G] True) = Rejected_TypeError
   \<and> extractPdfText demo_adapters file_H = Inl Thrown_nullish
   \<and> results (state_after demo_adapters (ready [file_A, file_H] True)) = []
   \<and> error (state_after demo_adapters (ready [file_A, file_H] True)) = []
   \<and> settlement_of demo_adapters (ready [file_A, file_H] True) = Rejected_TypeError"
  by code_simp

text \<open>
  What a run in the combined mode that starts does keep. The result set after it is
  empty or holds exactly one result, labelled \<open>Combined Output\<close>, and it holds that
  result when the service answers. When \<open>Promise.all\<close> is rejected with \<open>e\<close>, or the
  service rejects the combined text with \<open>e\<close>, the result set is empty and the error
  string is the one shown for \<open>e\<close>: the message of \<open>e\<close>, the fallback when \<open>e\<close> has no
  message or an empty one, and the empty string when \<open>e\<close> is \<open>undefined\<close> or \<open>null\<close>.
\<close>

lemma error_shown_cases:
  "error_shown Thrown_nullish = []"
  "error_shown (Exn None) = ''An unknown error occurred during conversion.''"
  "error_shown (Exn (Some [])) = ''An unknown error occurred during conversion.''"
  "m \<noteq> [] \<Longrightarrow> error_shown (Exn (Some m)) = m"
  by (simp_all add: error_shown_def error_text_def)

lemma combined_run_outcomes:
  assumes "combineOutput s" and "pdfFiles s \<noteq> []"
  shows "(results (state_after ad s) = []
          \<or> (\<exists>html. results (state_after ad s) =
                [\<lparr>fileName = ''Combined Output'', htmlContent = html\<rparr>]))
     \<and> (promise_all (map (\<lambda>file. (settles_at ad file, extractPdfText ad file)) (pdfFiles s))
           = Inl e \<longrightarrow>
          results (state_after ad s) = [] \<and> error (state_after ad s) = error_shown e
          \<and> convert_calls (events (trace_of ad s)) = [])
     \<and> ((\<forall>f\<in>set (pdfFiles s). \<not> extraction_rejects ad f)
          \<and> extracted_texts ad (pdfFiles s) \<noteq> []
          \<and> convertTextToHtml ad (join separator (extracted_texts ad (pdfFiles s))) = Inl e \<longrightarrow>
          results (state_after ad s) = [] \<and> error (state_after ad s) = error_shown e)
     \<and> ((\<forall>f\<in>set (pdfFiles s). \<not> extraction_rejects ad f)
          \<and> extracted_texts ad (pdfFiles s) \<noteq> []
          \<and> convertTextToHtml ad (join separator (extracted_texts ad (pdfFiles s))) = Inr html \<longrightarrow>
          results (state_after ad s) =
            [\<lparr>fileName = ''Combined Output'', htmlContent = html\<rparr>]
          \<and> error (state_after ad s) = [])"
proof (cases "\<exists>f\<in>set (pdfFiles s). extraction_rejects ad f")
  case True
  from combined_run_rejected [OF assms True] True show ?thesis by auto
next
  case False
  then have ok: "\<forall>f\<in>set (pdfFiles s). \<not> extraction_rejects ad f" by blast
  then have "\<forall>f\<in>set (pdfFiles s). \<not> isl (extractPdfText ad f)"
    by (simp add: extraction_rejects_def)
  from promise_all_fulfilled [OF this, of "settles_at ad"]
  have pa: "promise_all (map (\<lambda>file. (settles_at ad file, extractPdfText ad file)) (pdfFiles s))
              \<noteq> Inl e"
    by simp
  note hc = combined_run_fulfilled [OF assms ok]
  show ?thesis
  proof (cases "extracted_texts ad (pdfFiles s) = []")
    case True
    with pa show ?thesis
      unfolding state_after_def hc by (simp add: catch_finally_thrown)
  next
    case nonempty: False
    show ?thesis
    proof (cases "convertTextToHtml ad (join separator (extracted_texts ad (pdfFiles s)))")
      case (Inl x)
      with pa nonempty show ?thesis
        unfolding state_after_def hc by (simp add: catch_finally_thrown)
    next
      case (Inr h)
      with pa nonempty show ?thesis
        unfolding state_after_def hc by (simp add: catch_finally_normal)
    qed
  qed
qed

text \<open>
  C4. A run that starts (the pending set is not empty) ends, in either mode and
  whatever is thrown, with the in-progress flag false and the status empty. A call with
  an empty pending set leaves both as they were, so the same holds after it when it is
  made while no run is in progress. When the status is empty whenever the flag is
  false before the call, this holds in every state in force at an event of the run and
  in the state after it; during the run the flag is true.
\<close>

theorem C4_cleanup:
  "((pdfFiles s \<noteq> [] \<or> (\<not> isConverting s \<and> conversionStatus s = [])) \<longrightarrow>
      \<not> isConverting (state_after ad s) \<and> conversionStatus (state_after ad s) = [])
   \<and> (\<forall>st\<in>set (observed (trace_of ad s)). isConverting st)
   \<and> ((\<not> isConverting s \<longrightarrow> conversionStatus s = []) \<longrightarrow>
      (\<forall>st\<in>set (observed (trace_of ad s) @ [state_after ad s]).
         \<not> isConverting st \<longrightarrow> conversionStatus st = []))"
proof (cases "pdfFiles s = []")
  case True
  then show ?thesis
    by (simp add: state_after_def trace_of_def observed_def handleConvert_def)
next
  case False
  from run_frame [OF False, of ad]
  have obs: "\<forall>st\<in>set (observed (trace_of ad s)).
            \<exists>c. st = s\<lparr>isConverting := True, error := [], results := [], conversionStatus := c\<rparr>"
    and fin: "\<not> isConverting (state_after ad s)" "conversionStatus (state_after ad s) = []"
    by simp_all
  from obs have "\<forall>st\<in>set (observed (trace_of ad s)). isConverting st" by auto
  with fin show ?thesis by auto
qed

theorem C4_witness:
  "\<not> isConverting (state_after demo_adapters (ready [file_A, file_C, file_B] False))
   \<and> conversionStatus (state_after demo_adapters (ready [file_A, file_C, file_B] False)) = []
   \<and> set (map isConverting
          (observed (trace_of demo_adapters (ready [file_A, file_C, file_B] False)))) \<subseteq> {True}
   \<and> error (state_after demo_adapters (ready [file_A, file_C, file_B] False)) =
       ''The model is overloaded.''"
proof -
  have a: "pdfFiles (ready [file_A, file_C, file_B] False) \<noteq> []"
    "\<not> isConverting (ready [file_A, file_C, file_B] False)"
    "conversionStatus (ready [file_A, file_C, file_B] False) = []"
    by (simp_all add: ready_def initial_state_def)
  have e: "error (state_after demo_adapters (ready [file_A, file_C, file_B] False)) =
       ''The model is overloaded.''"
    by code_simp
  from C4_cleanup [of "ready [file_A, file_C, file_B] False" demo_adapters] a e
  show ?thesis by auto
qed

text \<open>
  C5, as the code has it. After a run that starts (the pending set is not empty) the
  result set is empty or the error string is empty. A call with an empty pending set
  sets the error string and leaves the result set as it was.
\<close>

theorem C5_results_or_error:
  "(pdfFiles s \<noteq> [] \<longrightarrow>
      results (state_after ad s) = [] \<or> error (state_after ad s) = [])
   \<and> (pdfFiles s = [] \<longrightarrow>
      results (state_after ad s) = results s
      \<and> error (state_after ad s) = ''Please select one or more PDF files first.'')"
proof (cases "pdfFiles s = []")
  case True
  then show ?thesis by (simp add: state_after_def handleConvert_def)
next
  case False
  from run_frame [OF False, of ad] False show ?thesis by simp
qed

theorem C5_witness:
  "results (state_after demo_adapters (ready [file_A, file_C] False)) = []
   \<and> error (state_after demo_adapters (ready [file_A, file_C] False)) =
       ''The model is overloaded.''
   \<and> results (state_after demo_adapters (ready [] True)) = []
   \<and> error (state_after demo_adapters (ready [] True)) =
       ''Please select one or more PDF files first.''"
proof -
  have a: "pdfFiles (ready [file_A, file_C] False) \<noteq> []" "pdfFiles (ready [] True) = []"
    "results (ready [] True) = []"
    by (simp_all add: ready_def initial_state_def)
  have e: "error (state_after demo_adapters (ready [file_A, file_C] False)) =
       ''The model is overloaded.''"
    by code_simp
  from C5_results_or_error [of "ready [file_A, file_C] False" demo_adapters]
    C5_results_or_error [of "ready [] True" demo_adapters] a e
  show ?thesis by simp
qed

text \<open>
  C5 as stated fails: add \<open>A.pdf\<close>, convert it, remove it (which keeps the results) and
  call the conversion again. The call is rejected by the validation check, and its
  error stands next to the result of the earlier run.
\<close>

theorem C5_counterexample:
  "results (state_after demo_adapters
      (handleRemoveFile ''A.pdf''
         (state_after demo_adapters (handleFilesAdded [file_A] initial_state)))) =
     [\<lparr>fileName = ''Combined Output'', htmlContent = ''<p>TextA</p>''\<rparr>]
   \<and> error (state_after demo_adapters
      (handleRemoveFile ''A.pdf''
         (state_after demo_adapters (handleFilesAdded [file_A] initial_state)))) =
     ''Please select one or more PDF files first.''"
  by code_simp

text \<open>
  C6 fails on a batch with a repeated name. \<open>handleFilesAdded\<close> compares the candidates
  with the names already pending, not with one another: from the empty pending set, a
  batch of two files called \<open>A.pdf\<close> leaves that name twice in the pending set.
\<close>

theorem C6_repeated_name_in_batch:
  "distinct (map name (pdfFiles initial_state))
   \<and> pdfFiles (handleFilesAdded [file_A, file_A'] initial_state) = [file_A, file_A']
   \<and> map name (pdfFiles (handleFilesAdded [file_A, file_A'] initial_state)) =
       [''A.pdf'', ''A.pdf'']
   \<and> \<not> distinct (map name (pdfFiles (handleFilesAdded [file_A, file_A'] initial_state)))"
  by (simp add: handleFilesAdded_def initial_state_def file_A_def file_A'_def)

text \<open>
  What \<open>handleFilesAdded\<close> does keep: when the names of the batch differ from one
  another, the names of the pending set stay distinct, the files already pending stay
  in front, and the candidates with a name not yet pending follow in their order.
\<close>

lemma handleFilesAdded_distinct_batch:
  assumes "distinct (map name (pdfFiles s))" and "distinct (map name newFiles)"
  shows "distinct (map name (pdfFiles (handleFilesAdded newFiles s)))
     \<and> pdfFiles (handleFilesAdded newFiles s) =
         pdfFiles s @ filter (\<lambda>f. name f \<notin> set (map name (pdfFiles s))) newFiles"
proof -
  have "name ` set (pdfFiles s)
          \<inter> name ` set (filter (\<lambda>f. name f \<notin> set (map name (pdfFiles s))) newFiles) = {}"
    by (auto intro: rev_image_eqI)
  with assms show ?thesis
    by (simp add: handleFilesAdded_def Let_def distinct_map_filter)
qed

text \<open>
  C7. A call with an empty pending set yields the state it was called in with the
  error string set to \<open>Please select one or more PDF files first.\<close>, and an empty
  trace: no call of a collaborator, no state in between, and the in-progress flag, the
  result set and the status as they were. Its promise is fulfilled.
\<close>

theorem C7_empty_pending_rejected:
  assumes "pdfFiles s = []"
  shows "handleConvert ad s =
           (s\<lparr>error := ''Please select one or more PDF files first.''\<rparr>, [], Fulfilled)
     \<and> error (state_after ad s) = ''Please select one or more PDF files first.''
     \<and> trace_of ad s = []
     \<and> extract_calls (events (trace_of ad s)) = []
     \<and> convert_calls (events (trace_of ad s)) = []
     \<and> isConverting (state_after ad s) = isConverting s
     \<and> results (state_after ad s) = results s
     \<and> conversionStatus (state_after ad s) = conversionStatus s"
  using assms by (simp add: handleConvert_def state_after_def trace_of_def)

theorem C7_witness:
  "handleConvert demo_adapters
     (handleRemoveFile ''A.pdf''
        (state_after demo_adapters (handleFilesAdded [file_A] initial_state))) =
     (\<lparr>pdfFiles = [], isConverting = False,
       results = [\<lparr>fileName = ''Combined Output'', htmlContent = ''<p>TextA</p>''\<rparr>],
       error = ''Please select one or more PDF files first.'',
       combineOutput = True, conversionStatus = []\<rparr>, [], Fulfilled)"
proof -
  have s: "handleRemoveFile ''A.pdf''
        (state_after demo_adapters (handleFilesAdded [file_A] initial_state)) =
     \<lparr>pdfFiles = [], isConverting = False,
       results = [\<lparr>fileName = ''Combined Output'', htmlContent = ''<p>TextA</p>''\<rparr>],
       error = [], combineOutput = True, conversionStatus = []\<rparr>"
    by code_simp
  from C7_empty_pending_rejected [of "handleRemoveFile ''A.pdf''
        (state_after demo_adapters (handleFilesAdded [file_A] initial_state))" demo_adapters]
  show ?thesis by (simp add: s)
qed

text \<open>
  C8 fails when the value thrown is \<open>undefined\<close> or \<open>null\<close>. With \<open>A.pdf\<close>, \<open>G.pdf\<close> and
  \<open>B.pdf\<close> pending in the individual mode, the service converts the text of \<open>A.pdf\<close> and
  rejects the text of \<open>G.pdf\<close> with \<open>undefined\<close>. The run stops there, \<open>B.pdf\<close> is neither
  extracted nor converted and the result set is empty, but the \<open>catch\<close> clause throws
  on \<open>e.message\<close>: the error string stays empty instead of becoming
  \<open>An unknown error occurred during conversion.\<close>, and the promise of \<open>handleConvert\<close> is
  rejected.
\<close>

theorem C8_thrown_undefined_no_error:
  "convertTextToHtml demo_adapters ''TextG'' = Inl Thrown_nullish
   \<and> events (trace_of demo_adapters (ready [file_A, file_G, file_B] False)) =
       [Extract_call file_A, Convert_call ''TextA'', Extract_call file_G,
        Convert_call ''TextG'', Console_error_exn Thrown_nullish]
   \<and> results (state_after demo_adapters (ready [file_A, file_G, file_B] False)) = []
   \<and> error (state_after demo_adapters (ready [file_A, file_G, file_B] False)) = []
   \<and> settlement_of demo_adapters (ready [file_A, file_G, file_B] False) = Rejected_TypeError"
  by code_simp

text \<open>
  What the individual mode does keep. When the conversion of the text of file \<open>i\<close> is
  the first call to be rejected, with \<open>e\<close>, the run stops there: the events of the run
  are the ones of the files before \<open>i\<close>, the extraction of file \<open>i\<close>, the call of the
  service for its text and the report of \<open>e\<close> on the console, so the files extracted are
  the first \<open>i + 1\<close> ones and no later file is extracted or converted. The result set
  after the run is empty: the entries of the files converted before \<open>i\<close> are lost. The
  error string is the one shown for \<open>e\<close>: its message, the fallback when \<open>e\<close> has no
  message or an empty one, and the empty string when \<open>e\<close> is \<open>undefined\<close> or \<open>null\<close>.
\<close>

lemma individual_conversion_failure_aborts:
  assumes "\<not> combineOutput s" and "i < length (pdfFiles s)"
    and "\<forall>f\<in>set (take i (pdfFiles s)).
           \<not> extraction_rejects ad f \<and> (yields_text ad f \<longrightarrow> \<not> conversion_rejects ad f)"
    and "yields_text ad (pdfFiles s ! i)"
    and "convertTextToHtml ad (text_of ad (pdfFiles s ! i)) = Inl e"
  shows "results (state_after ad s) = []
     \<and> error (state_after ad s) = error_shown e
     \<and> events (trace_of ad s) =
         concat (map (file_events ad) (take i (pdfFiles s)))
         @ [Extract_call (pdfFiles s ! i), Convert_call (text_of ad (pdfFiles s ! i)),
            Console_error_exn e]
     \<and> extract_calls (events (trace_of ad s)) = take (Suc i) (pdfFiles s)
     \<and> convert_calls (events (trace_of ad s)) =
         map (text_of ad) (filter (yields_text ad) (take (Suc i) (pdfFiles s)))
     \<and> settlement_of ad s =
         (case e of Thrown_nullish \<Rightarrow> Rejected_TypeError | Exn msg \<Rightarrow> Fulfilled)"
proof -
  from individual_run_abort [OF assms]
  have r: "results (state_after ad s) = []"
    and er: "error (state_after ad s) = error_shown e"
    and ev: "events (trace_of ad s) =
         concat (map (file_events ad) (take i (pdfFiles s)))
         @ [Extract_call (pdfFiles s ! i), Convert_call (text_of ad (pdfFiles s ! i)),
            Console_error_exn e]"
    and st: "settlement_of ad s =
         (case e of Thrown_nullish \<Rightarrow> Rejected_TypeError | Exn msg \<Rightarrow> Fulfilled)"
    by simp_all
  have cc: "convert_calls (concat (map (file_events ad) fs)) =
              map (text_of ad) (filter (yields_text ad) fs)" for fs
    by (induction fs) (simp_all add: file_events_def)
  from assms(2) have tk: "take (Suc i) (pdfFiles s) = take i (pdfFiles s) @ [pdfFiles s ! i]"
    by (rule take_Suc_conv_app_nth)
  from r er st show ?thesis
    unfolding ev tk by (simp add: cc assms(4))
qed

text \<open>
  C9, as the code has it. In the individual mode the entries are collected in an array
  local to the run, and the result set is replaced once, after the loop: in every
  state in force at an event of a run that starts the result set is empty, and when
  nothing is thrown the result set after the run holds the entries of all the files
  converted.
\<close>

theorem C9_results_replaced_once:
  assumes "\<not> combineOutput s" and "pdfFiles s \<noteq> []"
  shows "(\<forall>st\<in>set (observed (trace_of ad s)). results st = [])
     \<and> ((\<forall>f\<in>set (pdfFiles s).
            \<not> extraction_rejects ad f \<and> (yields_text ad f \<longrightarrow> \<not> conversion_rejects ad f)) \<longrightarrow>
         results (state_after ad s) =
           map (entry_of ad) (filter (yields_text ad) (pdfFiles s)))"
proof -
  from run_frame [OF assms(2), of ad]
  have "\<forall>st\<in>set (observed (trace_of ad s)).
            \<exists>c. st = s\<lparr>isConverting := True, error := [], results := [], conversionStatus := c\<rparr>"
    by simp
  then have "\<forall>st\<in>set (observed (trace_of ad s)). results st = []" by auto
  moreover have "results (state_after ad s) =
           map (entry_of ad) (filter (yields_text ad) (pdfFiles s))"
    if "\<forall>f\<in>set (pdfFiles s).
            \<not> extraction_rejects ad f \<and> (yields_text ad f \<longrightarrow> \<not> conversion_rejects ad f)"
    using individual_run_ok [OF assms, of ad] that by simp
  ultimately show ?thesis by blast
qed

theorem C9_witness:
  "set (map results (observed (trace_of demo_adapters (ready [file_A, file_B] False))))
     \<subseteq> {[]}
   \<and> results (state_after demo_adapters (ready [file_A, file_B] False)) =
       [\<lparr>fileName = ''A.pdf'', htmlContent = ''<p>TextA</p>''\<rparr>,
        \<lparr>fileName = ''B.pdf'', htmlContent = ''<p>TextB</p>''\<rparr>]"
proof -
  have a: "\<not> combineOutput (ready fs False)" for fs by (simp add: ready_def)
  have b: "pdfFiles (ready fs False) = fs" for fs by (simp add: ready_def)
  have x: "\<not> extraction_rejects demo_adapters file_A" "\<not> extraction_rejects demo_adapters file_B"
    by (simp_all add: extraction_rejects_def demo_adapters_def file_A_def file_B_def)
  have y: "yields_text demo_adapters file_A" "yields_text demo_adapters file_B"
    by (simp_all add: yields_text_def demo_adapters_def file_A_def file_B_def)
  have c: "\<not> conversion_rejects demo_adapters file_A" "\<not> conversion_rejects demo_adapters file_B"
    by (simp_all add: conversion_rejects_def text_of_def demo_adapters_def file_A_def file_B_def)
  have e: "entry_of demo_adapters file_A = \<lparr>fileName = ''A.pdf'', htmlContent = ''<p>TextA</p>''\<rparr>"
    "entry_of demo_adapters file_B = \<lparr>fileName = ''B.pdf'', htmlContent = ''<p>TextB</p>''\<rparr>"
    by (simp_all add: entry_of_def text_of_def demo_adapters_def file_A_def file_B_def)
  from C9_results_replaced_once [of "ready [file_A, file_B] False" demo_adapters]
  show ?thesis by (auto simp: a b x y c e)
qed

text \<open>
  C9 as stated fails: with \<open>A.pdf\<close> and \<open>B.pdf\<close> pending, both converted, the third event
  of the run is the extraction of \<open>B.pdf\<close>, after the conversion of \<open>A.pdf\<close>, and the
  result set in force at that event is empty; the entry of \<open>A.pdf\<close> is in the result set
  only after the run.
\<close>

theorem C9_counterexample:
  "events (trace_of demo_adapters (ready [file_A, file_B] False)) =
     [Extract_call file_A, Convert_call ''TextA'', Extract_call file_B, Convert_call ''TextB'']
   \<and> map results (observed (trace_of demo_adapters (ready [file_A, file_B] False))) =
     [[], [], [], []]
   \<and> results (state_after demo_adapters (ready [file_A, file_B] False)) =
     [\<lparr>fileName = ''A.pdf'', htmlContent = ''<p>TextA</p>''\<rparr>,
      \<lparr>fileName = ''B.pdf'', htmlContent = ''<p>TextB</p>''\<rparr>]"
  by code_simp

text \<open>
  C10. \<open>handleRemoveFile\<close> keeps, in their order, the pending files whose name differs
  from the given one, and changes nothing when no pending file has that name. The
  result set, the error string, the in-progress flag, the status and the mode stay as
  they were, whereas \<open>handleFilesAdded\<close> and \<open>handleClearAll\<close> empty the result set and
  the error string.
\<close>

theorem C10_remove_frame:
  "pdfFiles (handleRemoveFile n s) = filter (\<lambda>f. name f \<noteq> n) (pdfFiles s)
   \<and> (\<forall>f. f \<in> set (pdfFiles (handleRemoveFile n s)) \<longleftrightarrow> f \<in> set (pdfFiles s) \<and> name f \<noteq> n)
   \<and> (n \<notin> set (map name (pdfFiles s)) \<longrightarrow> handleRemoveFile n s = s)
   \<and> results (handleRemoveFile n s) = results s
   \<and> error (handleRemoveFile n s) = error s
   \<and> isConverting (handleRemoveFile n s) = isConverting s
   \<and> conversionStatus (handleRemoveFile n s) = conversionStatus s
   \<and> combineOutput (handleRemoveFile n s) = combineOutput s
   \<and> results (handleFilesAdded newFiles s) = [] \<and> error (handleFilesAdded newFiles s) = []
   \<and> results (handleClearAll s) = [] \<and> error (handleClearAll s) = []"
proof -
  have "filter (\<lambda>f. name f \<noteq> n) (pdfFiles s) = pdfFiles s"
    if "n \<notin> set (map name (pdfFiles s))"
    using that by (induction "pdfFiles s") (auto simp: filter_id_conv)
  then show ?thesis
    by (auto simp: handleRemoveFile_def handleFilesAdded_def handleClearAll_def Let_def)
qed

theorem C10_witness:
  "handleRemoveFile ''Z.pdf'' (state_after demo_adapters (ready [file_A] True)) =
     state_after demo_adapters (ready [file_A] True)
   \<and> pdfFiles (handleRemoveFile ''A.pdf'' (state_after demo_adapters (ready [file_A] True))) = []
   \<and> results (handleRemoveFile ''A.pdf'' (state_after demo_adapters (ready [file_A] True))) =
       [\<lparr>fileName = ''Combined Output'', htmlContent = ''<p>TextA</p>''\<rparr>]"
proof -
  have s: "state_after demo_adapters (ready [file_A] True) =
     \<lparr>pdfFiles = [file_A], isConverting = False,
       results = [\<lparr>fileName = ''Combined Output'', htmlContent = ''<p>TextA</p>''\<rparr>],
       error = [], combineOutput = True, conversionStatus = []\<rparr>"
    by code_simp
  have n: "name file_A = ''A.pdf''" by (simp add: file_A_def)
  from C10_remove_frame [of "''Z.pdf''" "state_after demo_adapters (ready [file_A] True)" "[]"]
    C10_remove_frame [of "''A.pdf''" "state_after demo_adapters (ready [file_A] True)" "[]"]
  show ?thesis unfolding s by (simp add: n)
qed

end
